theory Spec2Isabelle
  imports Main "HOL-Library.Char_ord" "HOL-Library.List_Lexorder" "HOL-Library.Multiset"
begin

section \<open>The haveibeenpwned sensor platform\<close>

text \<open>
  A shallow embedding of \<^verbatim>\<open>homeassistant/components/haveibeenpwned/sensor.py\<close>: the
  data fetcher \<^verbatim>\<open>HaveIBeenPwnedData\<close> (a list of monitored emails, a rotating cursor, a
  cache of breaches per email and the fetch against the remote service) and the sensor
  \<^verbatim>\<open>HaveIBeenPwnedSensor\<close> that reads the cache.

  Mutation of \<^verbatim>\<open>self\<close> is explicit state passing, an exception is the \<open>Inl\<close> of a sum,
  the remote service is a function from the request to what \<^verbatim>\<open>requests.get\<close> does with
  it, and the logger and the network are a record of what was logged and what was sent.
\<close>

subsection \<open>Exceptions and decoded JSON\<close>

datatype error =
    RequestException
  | UnboundLocalError
  | JSONDecodeError
  | KeyError
  | TypeError
  | ZeroDivisionError
  | IndexError
  | AttributeError

text \<open>
  What \<^verbatim>\<open>req.json()\<close> returns: \<^verbatim>\<open>None\<close>, a bool, an int, a str, a list or a dict
  (its items, with distinct keys). A JSON number with a fraction decodes to a float,
  which this type leaves out.
\<close>

datatype json =
    JNull
  | JBool bool
  | JNum int
  | JStr string
  | JArr "json list"
  | JObj "(string \<times> json) list"

text \<open>Python's \<^verbatim>\<open>xs[i]\<close> on a list: a negative index counts from the end.\<close>

definition py_index :: "'a list \<Rightarrow> int \<Rightarrow> error + 'a" where
  "py_index xs i =
     (if 0 \<le> i \<and> i < int (length xs) then Inr (xs ! nat i)
      else if i < 0 \<and> - int (length xs) \<le> i then Inr (xs ! nat (int (length xs) + i))
      else Inl IndexError)"

text \<open>Python's \<^verbatim>\<open>a % b\<close> on ints: the result has the sign of \<open>b\<close>, as \<open>mod\<close> on \<open>int\<close>.\<close>

definition py_mod :: "int \<Rightarrow> int \<Rightarrow> error + int" where
  "py_mod a b = (if b = 0 then Inl ZeroDivisionError else Inr (a mod b))"

text \<open>\<^verbatim>\<open>k[name]\<close> with a str \<open>name\<close>: only a dict takes it.\<close>

fun py_getitem :: "json \<Rightarrow> string \<Rightarrow> error + json" where
  "py_getitem (JObj kvs) name =
     (case map_of kvs name of None \<Rightarrow> Inl KeyError | Some v \<Rightarrow> Inr v)"
| "py_getitem _ name = Inl TypeError"

text \<open>Iterating a decoded value: a list gives its elements, a dict its keys, a str its
  characters; \<^verbatim>\<open>None\<close>, a bool and an int are not iterable.\<close>

fun py_iter :: "json \<Rightarrow> error + json list" where
  "py_iter (JArr xs) = Inr xs"
| "py_iter (JObj kvs) = Inr (map (\<lambda>kv. JStr (fst kv)) kvs)"
| "py_iter (JStr s) = Inr (map (\<lambda>c. JStr [c]) s)"
| "py_iter _ = Inl TypeError"

text \<open>Python's \<^verbatim>\<open>==\<close> and \<^verbatim>\<open><\<close> on decoded values. A bool is an int (\<^verbatim>\<open>True == 1\<close>);
  strings are ordered by code point, lists lexicographically; \<^verbatim>\<open>None\<close>, dicts and
  operands of different kinds are not ordered.\<close>

fun py_num :: "json \<Rightarrow> int option" where
  "py_num (JBool b) = Some (if b then 1 else 0)"
| "py_num (JNum n) = Some n"
| "py_num _ = None"

fun py_eq :: "json \<Rightarrow> json \<Rightarrow> bool" where
  "py_eq (JArr xs) (JArr ys) = list_all2 py_eq xs ys"
| "py_eq (JObj xs) (JObj ys) =
     (length xs = length ys \<and>
      (\<forall>(k, v) \<in> set xs. case map_of ys k of None \<Rightarrow> False | Some w \<Rightarrow> py_eq v w))"
| "py_eq (JStr a) (JStr b) = (a = b)"
| "py_eq JNull JNull = True"
| "py_eq a b = (case (py_num a, py_num b) of (Some m, Some n) \<Rightarrow> m = n | _ \<Rightarrow> False)"

fun py_lt :: "json \<Rightarrow> json \<Rightarrow> error + bool"
  and py_lt_list :: "json list \<Rightarrow> json list \<Rightarrow> error + bool" where
  "py_lt (JStr a) (JStr b) = Inr (a < b)"
| "py_lt (JArr xs) (JArr ys) = py_lt_list xs ys"
| "py_lt a b = (case (py_num a, py_num b) of (Some m, Some n) \<Rightarrow> Inr (m < n) | _ \<Rightarrow> Inl TypeError)"
| "py_lt_list [] [] = Inr False"
| "py_lt_list [] (y # ys) = Inr True"
| "py_lt_list (x # xs) [] = Inr False"
| "py_lt_list (x # xs) (y # ys) = (if py_eq x y then py_lt_list xs ys else py_lt x y)"

subsection \<open>sorted with a key, in reverse\<close>

text \<open>
  \<^verbatim>\<open>sorted(xs, key=f, reverse=True)\<close> computes the key of every element first (the first
  failing key raises), then sorts stably on the keys with \<^verbatim>\<open><\<close> alone: with
  \<^verbatim>\<open>reverse=True\<close> the list is reversed, sorted ascending and reversed again, so elements
  with equal keys keep their order. The sort here is insertion sort; on keys that
  \<^verbatim>\<open><\<close> orders totally every stable sort returns the same list.
\<close>

fun keyed :: "('a \<Rightarrow> error + json) \<Rightarrow> 'a list \<Rightarrow> error + (json \<times> 'a) list" where
  "keyed f [] = Inr []"
| "keyed f (x # xs) =
     (case f x of
        Inl e \<Rightarrow> Inl e
      | Inr k \<Rightarrow> (case keyed f xs of Inl e \<Rightarrow> Inl e | Inr ks \<Rightarrow> Inr ((k, x) # ks)))"

fun py_insort :: "json \<times> 'a \<Rightarrow> (json \<times> 'a) list \<Rightarrow> error + (json \<times> 'a) list" where
  "py_insort x [] = Inr [x]"
| "py_insort x (y # ys) =
     (case py_lt (fst y) (fst x) of
        Inl e \<Rightarrow> Inl e
      | Inr True \<Rightarrow> (case py_insort x ys of Inl e \<Rightarrow> Inl e | Inr zs \<Rightarrow> Inr (y # zs))
      | Inr False \<Rightarrow> Inr (x # y # ys))"

fun py_sort :: "(json \<times> 'a) list \<Rightarrow> error + (json \<times> 'a) list" where
  "py_sort [] = Inr []"
| "py_sort (x # xs) = (case py_sort xs of Inl e \<Rightarrow> Inl e | Inr ys \<Rightarrow> py_insort x ys)"

definition py_sorted :: "'a list \<Rightarrow> ('a \<Rightarrow> error + json) \<Rightarrow> bool \<Rightarrow> error + 'a list" where
  "py_sorted xs f reverse =
     (case keyed f xs of
        Inl e \<Rightarrow> Inl e
      | Inr ks \<Rightarrow>
          (case py_sort (if reverse then rev ks else ks) of
             Inl e \<Rightarrow> Inl e
           | Inr ss \<Rightarrow> Inr (map snd (if reverse then rev ss else ss))))"

subsection \<open>The HTTP client and the logger\<close>

datatype http_method = GET

record request =
  http_method :: http_method
  url :: string
  params :: "(string \<times> string) list"
  headers :: "(string \<times> string) list"
  allow_redirects :: bool
  timeout :: int

text \<open>The response object \<^verbatim>\<open>req\<close>: \<open>body_json\<close> is what \<^verbatim>\<open>req.json()\<close> decodes from the
  body, \<open>None\<close> when the body is not JSON; \<open>request_url\<close> and \<open>request_headers\<close> are
  \<^verbatim>\<open>req.request.url\<close> and \<^verbatim>\<open>req.request.headers\<close>.\<close>

record response =
  status_code :: int
  body_text :: string
  body_json :: "json option"
  request_url :: string
  request_headers :: "(string \<times> string) list"

definition requests_get ::
  "string \<Rightarrow> (string \<times> string) list \<Rightarrow> (string \<times> string) list \<Rightarrow> bool \<Rightarrow> int \<Rightarrow> request" where
  "requests_get u ps hs redirects t =
     \<lparr>http_method = GET, url = u, params = ps, headers = hs,
      allow_redirects = redirects, timeout = t\<rparr>"

definition req_json :: "response \<Rightarrow> error + json" where
  "req_json req = (case body_json req of None \<Rightarrow> Inl JSONDecodeError | Some j \<Rightarrow> Inr j)"

text \<open>A local variable is unbound until its first assignment; reading it then raises.\<close>

datatype 'a local_var = Unbound | Bound 'a

definition read_local :: "'a local_var \<Rightarrow> error + 'a" where
  "read_local v = (case v of Unbound \<Rightarrow> Inl UnboundLocalError | Bound x \<Rightarrow> Inr x)"

datatype level = DEBUG | ERROR

datatype log_arg =
    AStr string
  | AInt int
  | AHeaders "(string \<times> string) list"
  | AJsonDumps json nat

record log_record =
  log_level :: level
  log_format :: string
  log_args :: "log_arg list"

text \<open>What the process has done to the outside: the records handed to the logger and
  the requests sent, both in order.\<close>

record world =
  logged :: "log_record list"
  sent :: "request list"

definition log_debug :: "string \<Rightarrow> log_arg list \<Rightarrow> world \<Rightarrow> world" where
  "log_debug fmt args w =
     w\<lparr>logged := logged w @ [\<lparr>log_level = DEBUG, log_format = fmt, log_args = args\<rparr>]\<rparr>"

definition log_error :: "string \<Rightarrow> log_arg list \<Rightarrow> world \<Rightarrow> world" where
  "log_error fmt args w =
     w\<lparr>logged := logged w @ [\<lparr>log_level = ERROR, log_format = fmt, log_args = args\<rparr>]\<rparr>"

subsection \<open>Constants of the module\<close>

definition ATTRIBUTION :: string where
  "ATTRIBUTION = ''Data provided by Have I Been Pwned (HIBP)''"

definition DATE_STR_FORMAT :: string where
  "DATE_STR_FORMAT = ''%Y-%m-%d %H:%M:%S''"

definition HA_USER_AGENT :: string where
  "HA_USER_AGENT = ''Home Assistant HaveIBeenPwned Sensor Component''"

text \<open>A \<^verbatim>\<open>timedelta\<close> and a point in time are counts of microseconds.\<close>

definition MIN_TIME_BETWEEN_FORCED_UPDATES :: int where
  "MIN_TIME_BETWEEN_FORCED_UPDATES = 5 * 1000000"

definition MIN_TIME_BETWEEN_UPDATES :: int where
  "MIN_TIME_BETWEEN_UPDATES = 15 * 60 * 1000000"

definition URL :: string where
  "URL = ''https://haveibeenpwned.com/api/v3/breachedaccount/''"

definition HTTPStatus_OK :: int where
  "HTTPStatus_OK = 200"

definition HTTPStatus_NOT_FOUND :: int where
  "HTTPStatus_NOT_FOUND = 404"

subsection \<open>HaveIBeenPwnedData\<close>

record hibp_data =
  email_count :: int
  current_index :: int
  data :: "string \<rightharpoonup> json list"
  email :: string
  emails :: "string list"
  api_key :: string

type_synonym 'a exec = "(error + 'a) \<times> hibp_data \<times> world"

text \<open>\<^verbatim>\<open>__init__\<close>: \<^verbatim>\<open>emails[0]\<close> raises on an empty list, and no object is made.\<close>

definition init :: "string list \<Rightarrow> string \<Rightarrow> world \<Rightarrow> (error + hibp_data) \<times> world" where
  "init es key w =
     (let w1 = log_debug
            ''Instantiating HaveIBeenPwnedData class and initializing the data object'' [] w
      in case py_index es 0 of
           Inl e \<Rightarrow> (Inl e, w1)
         | Inr e0 \<Rightarrow>
             (Inr \<lparr>email_count = int (length es), current_index = 0, data = Map.empty,
                   email = e0, emails = es, api_key = key\<rparr>, w1))"

definition set_next_email :: "hibp_data \<Rightarrow> world \<Rightarrow> unit exec" where
  "set_next_email self w =
     (let w1 = log_debug ''Setting the next email to look up email: %s'' [AStr (email self)] w
      in case py_mod (current_index self + 1) (email_count self) of
           Inl e \<Rightarrow> (Inl e, self, w1)
         | Inr i \<Rightarrow>
             (let self1 = self\<lparr>current_index := i\<rparr>
              in case py_index (emails self1) (current_index self1) of
                   Inl e \<Rightarrow> (Inl e, self1, w1)
                 | Inr m \<Rightarrow> (Inr (), self1\<lparr>email := m\<rparr>, w1)))"

text \<open>
  The body of \<^verbatim>\<open>update\<close>, as it runs once the throttle lets a call through. \<open>http\<close> is
  the network: what \<^verbatim>\<open>requests.get\<close> does with the request, a response or an exception.
  The local \<^verbatim>\<open>req\<close> is assigned by the call alone, so it is still unbound in the handler.
\<close>

definition update :: "(request \<Rightarrow> error + response) \<Rightarrow> hibp_data \<Rightarrow> world \<Rightarrow> unit exec" where
  "update http self w =
     (let w1 = log_debug
            ''Getting the latest data for the current email from the REST service for email: %s''
            [AStr (email self)] w;
          req0 = (Unbound :: response local_var);
          url0 = URL @ email self;
          paramspayload = [(''truncateResponse'', ''false'')];
          header = [(''USER_AGENT'', HA_USER_AGENT), (''hibp-api-key'', api_key self)];
          w2 = log_debug ''Checking for breaches for email: %s'' [AStr (email self)] w1;
          rq = requests_get url0 paramspayload header True 5;
          w3 = w2\<lparr>sent := sent w2 @ [rq]\<rparr>
      in case http rq of
           Inl exn \<Rightarrow>
             (if exn = RequestException then
                (let w4 = log_error ''Failed fetching data for %s'' [AStr (email self)] w3
                 in case read_local req0 of
                      Inl e \<Rightarrow> (Inl e, self, w4)
                    | Inr r \<Rightarrow>
                        (Inr (), self, log_debug ''Response was %s'' [AStr (body_text r)] w4))
              else (Inl exn, self, w3))
         | Inr req \<Rightarrow>
             (let w4 = log_debug ''Requested URL is %s'' [AStr url0] w3;
                  w5 = log_debug ''Request object URL is %s'' [AStr (request_url req)] w4;
                  w6 = log_debug ''Request headers are %s'' [AHeaders (request_headers req)] w5
              in if status_code req = HTTPStatus_OK then
                   (let w7 = log_debug ''HTTP Status OK fetching data for %s''
                               [AStr (email self)] w6;
                        w8 = log_debug ''Response: %s'' [AStr (body_text req)] w7
                    in case req_json req of
                         Inl e \<Rightarrow> (Inl e, self, w8)
                       | Inr json_object \<Rightarrow>
                           (let w9 = log_debug ''The returned JSON data: %s''
                                       [AJsonDumps json_object 2] w8;
                                w10 = log_debug ''The returned text data: %s''
                                        [AStr (body_text req)] w9
                            in case req_json req of
                                 Inl e \<Rightarrow> (Inl e, self, w10)
                               | Inr j \<Rightarrow>
                                   (case py_iter j of
                                      Inl e \<Rightarrow> (Inl e, self, w10)
                                    | Inr items \<Rightarrow>
                                        (case py_sorted items
                                                (\<lambda>k. py_getitem k ''AddedDate'') True of
                                           Inl e \<Rightarrow> (Inl e, self, w10)
                                         | Inr breaches \<Rightarrow>
                                             (let self1 = self\<lparr>data :=
                                                    (data self)(email self \<mapsto> breaches)\<rparr>;
                                                  w11 = log_debug ''Setting to the next email: %s''
                                                          [AStr (email self1)] w10
                                              in set_next_email self1 w11)))))
                 else if status_code req = HTTPStatus_NOT_FOUND then
                   (let w7 = log_debug ''HTTP Status Not Found fetching data for %s''
                               [AStr (email self)] w6;
                        self1 = self\<lparr>data := (data self)(email self \<mapsto> [])\<rparr>
                    in set_next_email self1 w7)
                 else
                   (let w7 = log_debug ''An unhandled error occurred fetching data for %s''
                               [AStr (email self)] w6;
                        w8 = log_debug ''The response was: %s'' [AStr (body_text req)] w7;
                        w9 = log_error ''Failed fetching data for %s (HTTP Status_code = %d)''
                               [AStr (email self), AInt (status_code req)] w8
                    in (Inr (), self, w9))))"

text \<open>The request the body of \<^verbatim>\<open>update\<close> sends for the email under the cursor, and
  the breaches it stores from a response: the decoded body, iterated and sorted.\<close>

definition fetch_request :: "hibp_data \<Rightarrow> request" where
  "fetch_request self =
     requests_get (URL @ email self) [(''truncateResponse'', ''false'')]
       [(''USER_AGENT'', HA_USER_AGENT), (''hibp-api-key'', api_key self)] True 5"

definition fetched_breaches :: "response \<Rightarrow> error + json list" where
  "fetched_breaches req =
     (case req_json req of
        Inl e \<Rightarrow> Inl e
      | Inr j \<Rightarrow>
          (case py_iter j of
             Inl e \<Rightarrow> Inl e
           | Inr items \<Rightarrow> py_sorted items (\<lambda>k. py_getitem k ''AddedDate'') True))"

text \<open>The \<^verbatim>\<open>AddedDate\<close> of a breach record, a string.\<close>

definition added_date :: "json \<Rightarrow> string" where
  "added_date v = (case py_getitem v ''AddedDate'' of Inr (JStr d) \<Rightarrow> d | _ \<Rightarrow> [])"

text \<open>The class invariant: the cursor is a position of the email list and
  \<^verbatim>\<open>_email\<close> is the email there.\<close>

definition invariant :: "hibp_data \<Rightarrow> bool" where
  "invariant self =
     (email_count self = int (length (emails self)) \<and>
      0 \<le> current_index self \<and> current_index self < int (length (emails self)) \<and>
      email self = emails self ! nat (current_index self))"

subsection \<open>The throttle\<close>

text \<open>
  Modelled from the spec: the decorator \<^verbatim>\<open>Throttle\<close> of \<^verbatim>\<open>homeassistant.util\<close>, which is
  not among the sources. The spec gives it two gates with a time stamp each, checked
  when the call comes in. The standard gate holds a call back that comes within the
  long window since the body last ran, whichever path ran it. The forced path
  (\<^verbatim>\<open>no_throttle=True\<close>) ignores the standard gate and is held back within the short
  window since it last ran the body. A run of the body sets the time stamps whatever
  the body's outcome; a call held back returns \<^verbatim>\<open>None\<close> and changes nothing.
\<close>

record throttle =
  last_standard_run :: "int option"
  last_forced_run :: "int option"

definition gate_open :: "int \<Rightarrow> int option \<Rightarrow> int \<Rightarrow> bool" where
  "gate_open window prev now =
     (case prev of None \<Rightarrow> True | Some l \<Rightarrow> now - l > window)"

definition Throttle ::
  "int \<Rightarrow> int \<Rightarrow> (hibp_data \<Rightarrow> world \<Rightarrow> unit exec) \<Rightarrow>
   bool \<Rightarrow> int \<Rightarrow> throttle \<Rightarrow> hibp_data \<Rightarrow> world \<Rightarrow> unit exec \<times> throttle" where
  "Throttle min_time limit_no_throttle body no_throttle now t self w =
     (if no_throttle then
        (if gate_open limit_no_throttle (last_forced_run t) now then
           (body self w, t\<lparr>last_standard_run := Some now, last_forced_run := Some now\<rparr>)
         else ((Inr (), self, w), t))
      else
        (if gate_open min_time (last_standard_run t) now then
           (body self w, t\<lparr>last_standard_run := Some now\<rparr>)
         else ((Inr (), self, w), t)))"

text \<open>Whether a call at \<open>now\<close> runs the body.\<close>

definition executes :: "bool \<Rightarrow> int \<Rightarrow> throttle \<Rightarrow> bool" where
  "executes no_throttle now t =
     (if no_throttle then gate_open MIN_TIME_BETWEEN_FORCED_UPDATES (last_forced_run t) now
      else gate_open MIN_TIME_BETWEEN_UPDATES (last_standard_run t) now)"

text \<open>The decorated method \<^verbatim>\<open>update\<close>, called at the time \<open>now\<close>, and
  \<^verbatim>\<open>update_no_throttle\<close>.\<close>

definition throttled_update ::
  "(request \<Rightarrow> error + response) \<Rightarrow> bool \<Rightarrow> int \<Rightarrow> throttle \<Rightarrow> hibp_data \<Rightarrow> world \<Rightarrow>
   unit exec \<times> throttle" where
  "throttled_update http =
     Throttle MIN_TIME_BETWEEN_UPDATES MIN_TIME_BETWEEN_FORCED_UPDATES (update http)"


subsection \<open>HaveIBeenPwnedSensor\<close>

record sensor =
  state :: "int option"
  sensor_email :: string
  unit_of_measurement :: string

definition sensor_init :: "string \<Rightarrow> sensor" where
  "sensor_init e = \<lparr>state = None, sensor_email = e, unit_of_measurement = ''Breaches''\<rparr>"

definition name :: "sensor \<Rightarrow> string" where
  "name s = ''Breaches '' @ sensor_email s"

definition native_unit_of_measurement :: "sensor \<Rightarrow> string" where
  "native_unit_of_measurement s = unit_of_measurement s"



text \<open>Python's \<^verbatim>\<open>str\<close> of a non-negative int.\<close>

definition digit_char :: "nat \<Rightarrow> char" where
  "digit_char d = char_of (48 + d)"

function str_of_nat :: "nat \<Rightarrow> string" where
  "str_of_nat n = (if n < 10 then [digit_char n] else str_of_nat (n div 10) @ [digit_char (n mod 10)])"
  by pat_completeness auto
termination
  by (relation "measure id") auto

declare str_of_nat.simps [simp del]

text \<open>The number a string of digits writes.\<close>

definition digit_value :: "char \<Rightarrow> nat" where
  "digit_value c = of_char c - 48"

definition nat_of_str :: "string \<Rightarrow> nat" where
  "nat_of_str s = foldl (\<lambda>a c. 10 * a + digit_value c) 0 s"

text \<open>
  What \<^verbatim>\<open>extra_state_attributes\<close> uses and the sources do not hold, taken as parameters:
  the key \<^verbatim>\<open>ATTR_ATTRIBUTION\<close> of \<^verbatim>\<open>homeassistant.const\<close>; \<^verbatim>\<open>parse_datetime\<close> and
  \<^verbatim>\<open>as_local\<close> of \<^verbatim>\<open>homeassistant.util.dt\<close> (the first may return \<^verbatim>\<open>None\<close>, both may
  raise); \<^verbatim>\<open>strftime\<close> of the date-time they return; and the text an f-string prints
  for a value that is not a str.
\<close>

record 'dt platform =
  ATTR_ATTRIBUTION :: string
  parse_datetime :: "json \<Rightarrow> error + 'dt option"
  as_local :: "'dt option \<Rightarrow> error + 'dt"
  strftime :: "'dt \<Rightarrow> string \<Rightarrow> string"
  py_repr :: "json \<Rightarrow> string"

definition py_format :: "'dt platform \<Rightarrow> json \<Rightarrow> string" where
  "py_format P v = (case v of JStr s \<Rightarrow> s | _ \<Rightarrow> py_repr P v)"

text \<open>The loop over \<^verbatim>\<open>enumerate(self._data.data[self._email])\<close>.\<close>

fun breach_attributes ::
  "'dt platform \<Rightarrow> nat \<Rightarrow> json list \<Rightarrow> (string \<rightharpoonup> string) \<Rightarrow> error + (string \<rightharpoonup> string)" where
  "breach_attributes P idx [] val = Inr val"
| "breach_attributes P idx (v # rest) val =
     (let tmpname = ''breach '' @ str_of_nat (idx + 1)
      in case py_getitem v ''AddedDate'' of
           Inl e \<Rightarrow> Inl e
         | Inr added \<Rightarrow>
             (case parse_datetime P added of
                Inl e \<Rightarrow> Inl e
              | Inr parsed \<Rightarrow>
                  (case as_local P parsed of
                     Inl e \<Rightarrow> Inl e
                   | Inr datetime_local \<Rightarrow>
                       (case py_getitem v ''Title'' of
                          Inl e \<Rightarrow> Inl e
                        | Inr title \<Rightarrow>
                            (let tmpvalue = py_format P title @ '' '' @
                                   strftime P datetime_local DATE_STR_FORMAT
                             in breach_attributes P (idx + 1) rest (val(tmpname \<mapsto> tmpvalue)))))))"

definition extra_state_attributes ::
  "'dt platform \<Rightarrow> sensor \<Rightarrow> hibp_data \<Rightarrow> error + (string \<rightharpoonup> string)" where
  "extra_state_attributes P s self =
     (let val = [ATTR_ATTRIBUTION P \<mapsto> ATTRIBUTION]
      in case data self (sensor_email s) of
           None \<Rightarrow> Inr val
         | Some breaches \<Rightarrow> breach_attributes P 0 breaches val)"

subsection \<open>Dates of the example\<close>

text \<open>
  Modelled from the spec: \<^verbatim>\<open>parse_datetime\<close> and \<^verbatim>\<open>as_local\<close> of \<^verbatim>\<open>homeassistant.util.dt\<close>
  are not among the sources. The spec has \<^verbatim>\<open>AddedDate\<close> an ISO-8601 time stamp that is
  converted to local time and printed as \<^verbatim>\<open>YYYY-MM-DD HH:MM:SS\<close>, and its example is a
  UTC time stamp (suffix \<^verbatim>\<open>Z\<close>) in the local zone UTC+0. So the parser here reads the
  form \<^verbatim>\<open>YYYY-MM-DDTHH:MM:SSZ\<close> and answers \<^verbatim>\<open>None\<close> on any other string, and
  \<^verbatim>\<open>as_local\<close> is the conversion to the zone UTC+0, which keeps the fields. \<^verbatim>\<open>strftime\<close>
  prints the directives of \<^verbatim>\<open>DATE_STR_FORMAT\<close> with leading zeros.
\<close>

record datetime =
  year :: nat
  month :: nat
  day :: nat
  hour :: nat
  minute :: nat
  second :: nat

definition is_digit :: "char \<Rightarrow> bool" where
  "is_digit c = (CHR ''0'' \<le> c \<and> c \<le> CHR ''9'')"

definition field :: "string \<Rightarrow> nat \<Rightarrow> nat \<Rightarrow> nat option" where
  "field s start len =
     (let f = take len (drop start s)
      in if length f = len \<and> list_all is_digit f then Some (nat_of_str f) else None)"

definition parse_utc :: "string \<Rightarrow> datetime option" where
  "parse_utc s =
     (if length s = 20 \<and> s ! 4 = CHR ''-'' \<and> s ! 7 = CHR ''-'' \<and> s ! 10 = CHR ''T'' \<and>
         s ! 13 = CHR '':'' \<and> s ! 16 = CHR '':'' \<and> s ! 19 = CHR ''Z''
      then (case (field s 0 4, field s 5 2, field s 8 2, field s 11 2, field s 14 2, field s 17 2) of
              (Some y, Some m, Some d, Some h, Some mi, Some sec) \<Rightarrow>
                if 1 \<le> m \<and> m \<le> 12 \<and> 1 \<le> d \<and> d \<le> 31 \<and> h < 24 \<and> mi < 60 \<and> sec < 60
                then Some \<lparr>year = y, month = m, day = d, hour = h, minute = mi, second = sec\<rparr>
                else None
            | _ \<Rightarrow> None)
      else None)"

definition parse_datetime_utc :: "json \<Rightarrow> error + datetime option" where
  "parse_datetime_utc v = (case v of JStr s \<Rightarrow> Inr (parse_utc s) | _ \<Rightarrow> Inl TypeError)"

definition as_local_utc :: "datetime option \<Rightarrow> error + datetime" where
  "as_local_utc d = (case d of None \<Rightarrow> Inl AttributeError | Some t \<Rightarrow> Inr t)"

definition zero_pad :: "nat \<Rightarrow> nat \<Rightarrow> string" where
  "zero_pad width n = replicate (width - length (str_of_nat n)) CHR ''0'' @ str_of_nat n"

definition directive :: "datetime \<Rightarrow> char \<Rightarrow> string" where
  "directive t c =
     (if c = CHR ''Y'' then zero_pad 4 (year t)
      else if c = CHR ''m'' then zero_pad 2 (month t)
      else if c = CHR ''d'' then zero_pad 2 (day t)
      else if c = CHR ''H'' then zero_pad 2 (hour t)
      else if c = CHR ''M'' then zero_pad 2 (minute t)
      else if c = CHR ''S'' then zero_pad 2 (second t)
      else if c = CHR ''%'' then [CHR ''%'']
      else [CHR ''%'', c])"

fun strftime_fields :: "datetime \<Rightarrow> string \<Rightarrow> string" where
  "strftime_fields t [] = []"
| "strftime_fields t [c] = [c]"
| "strftime_fields t (c # d # rest) =
     (if c = CHR ''%'' then directive t d @ strftime_fields t rest
      else c # strftime_fields t (d # rest))"

definition demo_platform :: "datetime platform" where
  "demo_platform =
     \<lparr>ATTR_ATTRIBUTION = ''attribution'', parse_datetime = parse_datetime_utc,
      as_local = as_local_utc, strftime = strftime_fields, py_repr = (\<lambda>v. [])\<rparr>"

definition acme :: json where
  "acme = JObj [(''Title'', JStr ''Acme''), (''AddedDate'', JStr ''2021-06-01T12:00:00Z'')]"

subsection \<open>Example values\<close>

definition world0 :: world where
  "world0 = \<lparr>logged = [], sent = []\<rparr>"

definition demo_data :: hibp_data where
  "demo_data =
     \<lparr>email_count = 2, current_index = 0, data = Map.empty, email = ''a@x.com'',
      emails = [''a@x.com'', ''b@x.com''], api_key = ''key''\<rparr>"

definition reply :: "int \<Rightarrow> json option \<Rightarrow> response" where
  "reply code j =
     \<lparr>status_code = code, body_text = [], body_json = j, request_url = [],
      request_headers = []\<rparr>"

definition demo_breaches :: "json list" where
  "demo_breaches =
     [JObj [(''Title'', JStr ''A''), (''AddedDate'', JStr ''2020-01-01T00:00:00Z'')],
      JObj [(''Title'', JStr ''B''), (''AddedDate'', JStr ''2021-06-01T12:00:00Z'')],
      JObj [(''Title'', JStr ''C''), (''AddedDate'', JStr ''2020-01-01T00:00:00Z'')]]"

definition never_run :: throttle where
  "never_run = \<lparr>last_standard_run = None, last_forced_run = None\<rparr>"

section \<open>Properties\<close>

subsection \<open>The branches of update\<close>

lemma py_index_in_range:
  "0 \<le> i \<Longrightarrow> i < int (length xs) \<Longrightarrow> py_index xs i = Inr (xs ! nat i)"
  by (simp add: py_index_def)

lemma set_next_email_invariant:
  assumes "invariant self"
  shows "set_next_email self w =
     (Inr (),
      self\<lparr>current_index := (current_index self + 1) mod email_count self,
           email := emails self ! nat ((current_index self + 1) mod email_count self)\<rparr>,
      log_debug ''Setting the next email to look up email: %s'' [AStr (email self)] w)"
proof -
  let ?k = "email_count self"
  let ?i = "(current_index self + 1) mod ?k"
  from assms have k: "?k = int (length (emails self))" "0 < ?k"
    by (auto simp: invariant_def)
  have m: "0 \<le> ?i" "?i < int (length (emails self))"
    using k by simp_all
  have "py_mod (current_index self + 1) ?k = Inr ?i"
    using k by (simp add: py_mod_def)
  moreover have "py_index (emails self) ?i = Inr (emails self ! nat ?i)"
    using m by (rule py_index_in_range)
  ultimately show ?thesis
    by (simp add: set_next_email_def Let_def)
qed

lemma set_next_email_sent: "sent (snd (snd (set_next_email self w))) = sent w"
  by (simp add: set_next_email_def Let_def log_debug_def split: sum.splits)

lemma log_debug_sent: "sent (log_debug f a w) = sent w"
  by (simp add: log_debug_def)

lemma log_error_sent: "sent (log_error f a w) = sent w"
  by (simp add: log_error_def)

lemma update_transport:
  assumes "http (fetch_request self) = Inl RequestException"
  shows "fst (update http self w) = Inl UnboundLocalError"
    and "fst (snd (update http self w)) = self"
    and "log_level (last (logged (snd (snd (update http self w))))) = ERROR"
  using assms
  by (simp_all add: update_def fetch_request_def Let_def read_local_def log_error_def)

lemma update_other:
  assumes "http (fetch_request self) = Inr req"
      and "status_code req \<noteq> 200" and "status_code req \<noteq> 404"
  shows "fst (update http self w) = Inr ()"
    and "fst (snd (update http self w)) = self"
    and "log_level (last (logged (snd (snd (update http self w))))) = ERROR"
  using assms
  by (simp_all add: update_def fetch_request_def Let_def HTTPStatus_OK_def
        HTTPStatus_NOT_FOUND_def log_error_def)

lemma update_404:
  assumes "http (fetch_request self) = Inr req"
      and "status_code req = 404"
  shows "\<exists>w1. update http self w =
           set_next_email (self\<lparr>data := (data self)(email self \<mapsto> [])\<rparr>) w1"
  using assms
  by (auto simp add: update_def fetch_request_def Let_def HTTPStatus_OK_def
        HTTPStatus_NOT_FOUND_def)

lemma update_200:
  assumes "http (fetch_request self) = Inr req"
      and "status_code req = 200"
  shows "fetched_breaches req = Inl e \<Longrightarrow>
           fst (update http self w) = Inl e \<and> fst (snd (update http self w)) = self"
    and "fetched_breaches req = Inr bs \<Longrightarrow>
           \<exists>w1. update http self w =
             set_next_email (self\<lparr>data := (data self)(email self \<mapsto> bs)\<rparr>) w1"
  using assms
  by (auto simp add: update_def fetch_request_def fetched_breaches_def Let_def HTTPStatus_OK_def
        split: sum.splits)

lemma update_sent:
  "sent (snd (snd (update http self w))) = sent w @ [fetch_request self]"
  by (simp add: update_def fetch_request_def Let_def set_next_email_sent log_debug_sent
        log_error_sent read_local_def split: sum.splits)

subsection \<open>The invariant is kept\<close>

lemma init_nonempty:
  "es \<noteq> [] \<Longrightarrow> \<exists>self. fst (init es key w) = Inr self \<and> invariant self \<and>
     current_index self = 0 \<and> emails self = es \<and> data self = Map.empty"
  by (cases es) (simp_all add: init_def py_index_def invariant_def Let_def)

lemma init_empty: "fst (init [] key w) = Inl IndexError"
  by (simp add: init_def py_index_def Let_def)

lemma set_next_email_empty:
  "email_count self = 0 \<Longrightarrow> fst (set_next_email self w) = Inl ZeroDivisionError"
  by (simp add: set_next_email_def py_mod_def Let_def)

lemma invariant_advance:
  assumes "invariant self"
  shows "invariant (self\<lparr>current_index := (current_index self + 1) mod email_count self,
           email := emails self ! nat ((current_index self + 1) mod email_count self)\<rparr>)"
proof -
  from assms have k: "email_count self = int (length (emails self))"
    and pos: "0 < int (length (emails self))"
    by (auto simp: invariant_def)
  have "0 \<le> (current_index self + 1) mod int (length (emails self))"
    "(current_index self + 1) mod int (length (emails self)) < int (length (emails self))"
    using pos by simp_all
  then show ?thesis
    using k by (simp add: invariant_def)
qed

lemma invariant_data: "invariant (self\<lparr>data := d\<rparr>) = invariant self"
  by (simp add: invariant_def)

lemma set_next_email_keeps_invariant:
  assumes "invariant self"
  shows "fst (set_next_email self w) = Inr ()"
    and "invariant (fst (snd (set_next_email self w)))"
    and "current_index (fst (snd (set_next_email self w))) =
           (current_index self + 1) mod email_count self"
    and "data (fst (snd (set_next_email self w))) = data self"
    and "emails (fst (snd (set_next_email self w))) = emails self"
    and "email_count (fst (snd (set_next_email self w))) = email_count self"
  using assms invariant_advance [OF assms]
  by (simp_all add: set_next_email_invariant)

lemma update_keeps_invariant:
  assumes "invariant self"
  shows "invariant (fst (snd (update http self w)))"
proof (cases "http (fetch_request self)")
  case (Inl exn)
  then show ?thesis using assms
    by (simp add: update_def fetch_request_def Let_def read_local_def)
next
  case (Inr req)
  consider (ok) "status_code req = 200" | (nf) "status_code req = 404"
    | (other) "status_code req \<noteq> 200" "status_code req \<noteq> 404" by blast
  then show ?thesis
  proof cases
    case ok
    show ?thesis
    proof (cases "fetched_breaches req")
      case (Inl e)
      with Inr ok update_200(1) [of http self req e w] assms show ?thesis by simp
    next
      case r: (Inr bs)
      from Inr ok r update_200(2) [of http self req bs w] obtain w1 where
        "update http self w = set_next_email (self\<lparr>data := (data self)(email self \<mapsto> bs)\<rparr>) w1"
        by blast
      then show ?thesis
        using assms by (simp add: set_next_email_keeps_invariant(2) invariant_data)
    qed
  next
    case nf
    from Inr nf update_404 [of http self req w] obtain w1 where
      "update http self w = set_next_email (self\<lparr>data := (data self)(email self \<mapsto> [])\<rparr>) w1"
      by blast
    then show ?thesis
      using assms by (simp add: set_next_email_keeps_invariant(2) invariant_data)
  next
    case other
    with Inr update_other(2) [of http self req w] assms show ?thesis by simp
  qed
qed

lemma init_nonempty_fields:
  "es \<noteq> [] \<Longrightarrow>
     fst (init es key w) =
       Inr \<lparr>email_count = int (length es), current_index = 0, data = Map.empty,
            email = es ! 0, emails = es, api_key = key\<rparr>"
  by (cases es) (simp_all add: init_def py_index_def Let_def)

lemma set_next_email_fields:
  "data (fst (snd (set_next_email self w))) = data self \<and>
   emails (fst (snd (set_next_email self w))) = emails self \<and>
   email_count (fst (snd (set_next_email self w))) = email_count self \<and>
   api_key (fst (snd (set_next_email self w))) = api_key self"
  by (simp add: set_next_email_def Let_def split: sum.splits)

lemma update_keeps_emails:
  "emails (fst (snd (update http self w))) = emails self \<and>
   email_count (fst (snd (update http self w))) = email_count self \<and>
   api_key (fst (snd (update http self w))) = api_key self"
  by (simp add: update_def Let_def set_next_email_fields read_local_def split: sum.splits)

subsection \<open>Sorting on string keys\<close>

lemma keyed_strings:
  "(\<And>x. x \<in> set xs \<Longrightarrow> f x = Inr (JStr (g x))) \<Longrightarrow>
   keyed f xs = Inr (map (\<lambda>x. (JStr (g x), x)) xs)"
  by (induction xs) simp_all

lemma py_insort_strings:
  "py_insort (JStr (g x), x) (map (\<lambda>y. (JStr (g y), y)) ys) =
   Inr (map (\<lambda>y. (JStr (g y), y)) (insort_key g x ys))"
proof (induction ys)
  case Nil
  show ?case by simp
next
  case (Cons y ys)
  show ?case
  proof (cases "g x \<le> g y")
    case True
    then have "\<not> g y < g x" by simp
    with True show ?thesis by simp
  next
    case False
    then have "g y < g x" by simp
    with False Cons.IH show ?thesis by simp
  qed
qed

lemma py_sort_strings:
  "py_sort (map (\<lambda>y. (JStr (g y), y)) xs) = Inr (map (\<lambda>y. (JStr (g y), y)) (sort_key g xs))"
  by (induction xs) (simp_all add: py_insort_strings)

lemma py_sorted_strings:
  assumes "\<And>x. x \<in> set xs \<Longrightarrow> f x = Inr (JStr (g x))"
  shows "py_sorted xs f True = Inr (rev (sort_key g (rev xs)))"
proof -
  have "keyed f xs = Inr (map (\<lambda>x. (JStr (g x), x)) xs)"
    using assms by (rule keyed_strings)
  moreover have "py_sort (rev (map (\<lambda>x. (JStr (g x), x)) xs)) =
      Inr (map (\<lambda>y. (JStr (g y), y)) (sort_key g (rev xs)))"
    using py_sort_strings [of g "rev xs"] by (simp add: rev_map)
  ultimately show ?thesis
    by (simp add: py_sorted_def rev_map [symmetric] comp_def)
qed

lemma descending_sort_mset: "mset (rev (sort_key g (rev xs))) = mset xs"
  by simp

lemma descending_sort_sorted:
  "sorted_wrt (\<lambda>a b. g b \<le> g a) (rev (sort_key g (rev xs)))"
proof -
  have "sorted (map g (sort_key g (rev xs)))"
    by (rule sorted_sort_key)
  then have "sorted_wrt (\<lambda>a b. g a \<le> g b) (sort_key g (rev xs))"
    by (simp add: sorted_map)
  then show ?thesis
    by (simp add: sorted_wrt_rev)
qed

lemma descending_sort_stable:
  "filter (\<lambda>y. g y = k) (rev (sort_key g (rev xs))) = filter (\<lambda>y. g y = k) xs"
proof -
  have "filter (\<lambda>y. g y = k) (rev (sort_key g (rev xs))) =
        rev (filter (\<lambda>y. g y = k) (sort_key g (rev xs)))"
    by (simp add: rev_filter)
  also have "\<dots> = rev (filter (\<lambda>y. g y = k) (rev xs))"
    by (simp only: sort_key_stable)
  also have "\<dots> = filter (\<lambda>y. g y = k) xs"
    by (simp add: rev_filter)
  finally show ?thesis .
qed

lemma added_date_key:
  "py_getitem v ''AddedDate'' = Inr (JStr d) \<Longrightarrow>
   py_getitem v ''AddedDate'' = Inr (JStr (added_date v))"
  by (simp add: added_date_def)

subsection \<open>Calls the throttle holds back\<close>

lemma throttled_update_suppressed:
  "\<not> executes no_throttle now t \<Longrightarrow>
   throttled_update http no_throttle now t self w = ((Inr (), self, w), t)"
  by (cases no_throttle) (simp_all add: throttled_update_def Throttle_def executes_def)

lemma throttled_update_executes:
  "executes no_throttle now t \<Longrightarrow>
   fst (throttled_update http no_throttle now t self w) = update http self w"
  by (cases no_throttle) (simp_all add: throttled_update_def Throttle_def executes_def)

subsection \<open>The cursor and the current email\<close>

text \<open>
  C10. Constructing the fetcher from a non-empty email list \<open>es\<close> gives the fetcher
  over that very list, with the cursor at 0, the current email \<open>es[0]\<close>, an empty
  cache and the key given; it satisfies the invariant (the current email is
  \<^verbatim>\<open>emails[current_index]\<close> and the cursor is in \<open>[0, len(emails))\<close>). On a fetcher that
  satisfies it, \<^verbatim>\<open>set_next_email\<close> returns normally, keeps the list, moves the cursor to
  \<open>(cursor + 1) mod len(emails)\<close> and sets the current email to the one there; and
  \<^verbatim>\<open>update\<close> keeps the list and the invariant, whatever the network answers.
  Constructing the fetcher from the empty list raises \<^verbatim>\<open>IndexError\<close> (\<^verbatim>\<open>emails[0]\<close>),
  and advancing the cursor over an empty list raises \<^verbatim>\<open>ZeroDivisionError\<close> (the
  modulo).
\<close>

theorem invariant_established_and_kept:
  "(es \<noteq> [] \<longrightarrow>
      (\<exists>self0. fst (init es key w) = Inr self0 \<and> invariant self0 \<and>
         emails self0 = es \<and> email_count self0 = int (length es) \<and>
         current_index self0 = 0 \<and> email self0 = es ! 0 \<and>
         data self0 = Map.empty \<and> api_key self0 = key)) \<and>
   fst (init [] key w) = Inl IndexError \<and>
   (invariant self \<longrightarrow>
      fst (set_next_email self w) = Inr () \<and>
      invariant (fst (snd (set_next_email self w))) \<and>
      emails (fst (snd (set_next_email self w))) = emails self \<and>
      current_index (fst (snd (set_next_email self w))) =
        (current_index self + 1) mod int (length (emails self)) \<and>
      email (fst (snd (set_next_email self w))) =
        emails self ! nat ((current_index self + 1) mod int (length (emails self))) \<and>
      invariant (fst (snd (update http self w))) \<and>
      emails (fst (snd (update http self w))) = emails self) \<and>
   (emails self = [] \<and> email_count self = int (length (emails self)) \<longrightarrow>
      fst (set_next_email self w) = Inl ZeroDivisionError)"
proof -
  have a: "\<exists>self0. fst (init es key w) = Inr self0 \<and> invariant self0 \<and>
         emails self0 = es \<and> email_count self0 = int (length es) \<and>
         current_index self0 = 0 \<and> email self0 = es ! 0 \<and>
         data self0 = Map.empty \<and> api_key self0 = key" if "es \<noteq> []"
    using that by (simp add: init_nonempty_fields invariant_def)
  have b: "fst (set_next_email self w) = Inr () \<and>
      invariant (fst (snd (set_next_email self w))) \<and>
      emails (fst (snd (set_next_email self w))) = emails self \<and>
      current_index (fst (snd (set_next_email self w))) =
        (current_index self + 1) mod int (length (emails self)) \<and>
      email (fst (snd (set_next_email self w))) =
        emails self ! nat ((current_index self + 1) mod int (length (emails self)))"
    if i: "invariant self"
  proof -
    from i have k: "email_count self = int (length (emails self))"
      by (simp add: invariant_def)
    show ?thesis
      using set_next_email_keeps_invariant(1,2) [OF i, of w] k
      by (simp add: set_next_email_invariant [OF i])
  qed
  have c: "invariant (fst (snd (update http self w))) \<and>
      emails (fst (snd (update http self w))) = emails self" if "invariant self"
    using that by (simp add: update_keeps_invariant update_keeps_emails)
  have d: "fst (set_next_email self w) = Inl ZeroDivisionError"
    if "emails self = [] \<and> email_count self = int (length (emails self))"
    using that by (simp add: set_next_email_empty)
  show ?thesis
    using a b c d init_empty [of key w] by blast
qed

theorem invariant_established_and_kept_witness:
  "fst (init [''a@x.com'', ''b@x.com''] ''key'' world0) = Inr demo_data \<and>
   invariant demo_data \<and>
   emails demo_data = [''a@x.com'', ''b@x.com''] \<and>
   current_index demo_data = 0 \<and>
   email demo_data = ''a@x.com'' \<and>
   fst (set_next_email demo_data world0) = Inr () \<and>
   invariant (fst (snd (set_next_email demo_data world0))) \<and>
   emails (fst (snd (set_next_email demo_data world0))) = [''a@x.com'', ''b@x.com''] \<and>
   current_index (fst (snd (set_next_email demo_data world0))) = 1 \<and>
   email (fst (snd (set_next_email demo_data world0))) = ''b@x.com'' \<and>
   invariant (fst (snd (update (\<lambda>rq. Inr (reply 404 None)) demo_data world0))) \<and>
   emails (fst (snd (update (\<lambda>rq. Inr (reply 404 None)) demo_data world0))) =
     [''a@x.com'', ''b@x.com'']"
proof -
  have i: "invariant demo_data"
    by (simp add: invariant_def demo_data_def)
  have n: "[''a@x.com'', ''b@x.com''] \<noteq> ([] :: string list)"
    by simp
  have e: "emails demo_data = [''a@x.com'', ''b@x.com'']" "current_index demo_data = 0"
    "email demo_data = ''a@x.com''"
    by (simp_all add: demo_data_def)
  note th = invariant_established_and_kept
      [of "[''a@x.com'', ''b@x.com'']" "''key''" world0 demo_data "\<lambda>rq. Inr (reply 404 None)"]
  from th n obtain self0 where s0: "fst (init [''a@x.com'', ''b@x.com''] ''key'' world0) = Inr self0"
    "emails self0 = [''a@x.com'', ''b@x.com'']" "email_count self0 = int (length [''a@x.com'', ''b@x.com''])"
    "current_index self0 = 0" "email self0 = [''a@x.com'', ''b@x.com''] ! 0"
    "data self0 = Map.empty" "api_key self0 = ''key''"
    by blast
  have "self0 = demo_data"
    using s0(2-7) by (simp add: demo_data_def)
  with s0(1) have a: "fst (init [''a@x.com'', ''b@x.com''] ''key'' world0) = Inr demo_data"
    by simp
  from th i have b: "fst (set_next_email demo_data world0) = Inr ()"
    "invariant (fst (snd (set_next_email demo_data world0)))"
    "emails (fst (snd (set_next_email demo_data world0))) = emails demo_data"
    "current_index (fst (snd (set_next_email demo_data world0))) =
        (current_index demo_data + 1) mod int (length (emails demo_data))"
    "email (fst (snd (set_next_email demo_data world0))) =
        emails demo_data ! nat ((current_index demo_data + 1) mod int (length (emails demo_data)))"
    "invariant (fst (snd (update (\<lambda>rq. Inr (reply 404 None)) demo_data world0)))"
    "emails (fst (snd (update (\<lambda>rq. Inr (reply 404 None)) demo_data world0))) = emails demo_data"
    by blast+
  have c: "current_index (fst (snd (set_next_email demo_data world0))) = 1"
    "email (fst (snd (set_next_email demo_data world0))) = ''b@x.com''"
    using b(4,5) by (simp_all add: e)
  show ?thesis
    using i a e b(1,2,3,6,7) c by simp
qed

subsection \<open>Where the cursor is after a fetch\<close>

text \<open>
  C2, as the claim states it, fails: on a response with status 200 whose body is a
  JSON array with a record that has no \<^verbatim>\<open>AddedDate\<close>, the sort key raises \<^verbatim>\<open>KeyError\<close>
  and the cursor stays where it was.
\<close>

theorem cursor_after_200_counterexample:
  "invariant demo_data \<and>
   status_code (reply 200 (Some (JArr [JObj [(''Title'', JStr ''Acme'')]]))) = 200 \<and>
   fst (update (\<lambda>rq. Inr (reply 200 (Some (JArr [JObj [(''Title'', JStr ''Acme'')]]))))
          demo_data world0) = Inl KeyError \<and>
   current_index
     (fst (snd (update (\<lambda>rq. Inr (reply 200 (Some (JArr [JObj [(''Title'', JStr ''Acme'')]]))))
                  demo_data world0))) = 0 \<and>
   (current_index demo_data + 1) mod int (length (emails demo_data)) = 1"
proof -
  let ?req = "reply 200 (Some (JArr [JObj [(''Title'', JStr ''Acme'')]]))"
  have f: "fetched_breaches ?req = Inl KeyError"
    by (simp add: fetched_breaches_def req_json_def reply_def py_sorted_def)
  have "fst (update (\<lambda>rq. Inr ?req) demo_data world0) = Inl KeyError \<and>
     fst (snd (update (\<lambda>rq. Inr ?req) demo_data world0)) = demo_data"
    using f update_200(1) [of "\<lambda>rq. Inr ?req" demo_data ?req KeyError world0]
    by (simp add: reply_def)
  then show ?thesis
    by (simp add: invariant_def demo_data_def reply_def)
qed

text \<open>
  C2, amended. For a fetcher over \<open>k\<close> emails, after the body of \<^verbatim>\<open>update\<close> has run the
  cursor is \<open>(previous + 1) mod k\<close> when the status was 404, or was 200 and the body
  decoded and sorted; it is the previous cursor when the status was 200 and the body
  did not decode or sort, when the status was another one, and when the request
  raised. A call the throttle holds back leaves the cursor too.
\<close>

theorem cursor_after_update:
  assumes "invariant self"
  shows
   "(\<forall>req. http (fetch_request self) = Inr req \<and> status_code req = 404 \<longrightarrow>
       current_index (fst (snd (update http self w))) =
         (current_index self + 1) mod int (length (emails self))) \<and>
    (\<forall>req bs. http (fetch_request self) = Inr req \<and> status_code req = 200 \<and>
        fetched_breaches req = Inr bs \<longrightarrow>
       current_index (fst (snd (update http self w))) =
         (current_index self + 1) mod int (length (emails self))) \<and>
    (\<forall>req e. http (fetch_request self) = Inr req \<and> status_code req = 200 \<and>
        fetched_breaches req = Inl e \<longrightarrow>
       current_index (fst (snd (update http self w))) = current_index self) \<and>
    (\<forall>req. http (fetch_request self) = Inr req \<and> status_code req \<noteq> 200 \<and>
        status_code req \<noteq> 404 \<longrightarrow>
       current_index (fst (snd (update http self w))) = current_index self) \<and>
    (\<forall>exn. http (fetch_request self) = Inl exn \<longrightarrow>
       current_index (fst (snd (update http self w))) = current_index self) \<and>
    (\<not> executes no_throttle now t \<longrightarrow>
       current_index (fst (snd (fst (throttled_update http no_throttle now t self w)))) =
         current_index self)"
proof -
  from assms have k: "email_count self = int (length (emails self))"
    by (simp add: invariant_def)
  have adv: "current_index (fst (snd (set_next_email (self\<lparr>data := d\<rparr>) w1))) =
      (current_index self + 1) mod int (length (emails self))" for d w1
    using assms k
    by (simp add: set_next_email_keeps_invariant(3) invariant_data)
  have c404: "current_index (fst (snd (update http self w))) =
      (current_index self + 1) mod int (length (emails self))"
    if "http (fetch_request self) = Inr req" "status_code req = 404" for req
    using that update_404 [of http self req w] adv by auto
  have c200: "current_index (fst (snd (update http self w))) =
      (current_index self + 1) mod int (length (emails self))"
    if "http (fetch_request self) = Inr req" "status_code req = 200"
       "fetched_breaches req = Inr bs" for req bs
    using that update_200(2) [of http self req bs w] adv by auto
  have c200e: "current_index (fst (snd (update http self w))) = current_index self"
    if "http (fetch_request self) = Inr req" "status_code req = 200"
       "fetched_breaches req = Inl e" for req e
    using that update_200(1) [of http self req e w] by simp
  have cother: "current_index (fst (snd (update http self w))) = current_index self"
    if "http (fetch_request self) = Inr req" "status_code req \<noteq> 200"
       "status_code req \<noteq> 404" for req
    using that update_other(2) [of http self req w] by simp
  have cexn: "current_index (fst (snd (update http self w))) = current_index self"
    if "http (fetch_request self) = Inl exn" for exn
    using that by (simp add: update_def fetch_request_def Let_def read_local_def)
  have csup: "current_index (fst (snd (fst (throttled_update http no_throttle now t self w)))) =
         current_index self" if "\<not> executes no_throttle now t"
    using that by (simp add: throttled_update_suppressed)
  show ?thesis
    using c404 c200 c200e cother cexn csup by blast
qed

theorem cursor_after_update_witness:
  "invariant demo_data \<and> status_code (reply 404 None) = 404 \<and>
   current_index demo_data = 0 \<and>
   current_index (fst (snd (update (\<lambda>rq. Inr (reply 404 None)) demo_data world0))) = 1 \<and>
   current_index (fst (snd (update (\<lambda>rq. Inr (reply 429 None)) demo_data world0))) = 0 \<and>
   current_index (fst (snd (update (\<lambda>rq. Inl RequestException) demo_data world0))) = 0"
proof -
  have i: "invariant demo_data"
    by (simp add: invariant_def demo_data_def)
  have e: "current_index demo_data = 0" "emails demo_data = [''a@x.com'', ''b@x.com'']"
    by (simp_all add: demo_data_def)
  show ?thesis
    using i e
      cursor_after_update [OF i, of "\<lambda>rq. Inr (reply 404 None)" world0]
      cursor_after_update [OF i, of "\<lambda>rq. Inr (reply 429 None)" world0]
      cursor_after_update [OF i, of "\<lambda>rq. Inl RequestException" world0]
    by (simp add: reply_def)
qed

subsection \<open>A response with status 200\<close>

lemma fetched_breaches_records:
  assumes "body_json req = Some (JArr recs)"
      and "\<forall>v \<in> set recs. \<exists>d. py_getitem v ''AddedDate'' = Inr (JStr d)"
  shows "fetched_breaches req = Inr (rev (sort_key added_date (rev recs)))"
proof -
  have "py_getitem v ''AddedDate'' = Inr (JStr (added_date v))" if "v \<in> set recs" for v
    using that assms(2) by (auto simp: added_date_def)
  then have "py_sorted recs (\<lambda>k. py_getitem k ''AddedDate'') True =
      Inr (rev (sort_key added_date (rev recs)))"
    by (rule py_sorted_strings)
  then show ?thesis
    using assms(1) by (simp add: fetched_breaches_def req_json_def)
qed

text \<open>
  C7, as the claim states it, fails: on a response with status 200 whose body is not
  JSON, \<^verbatim>\<open>req.json()\<close> raises; nothing is stored and the cursor does not move.
\<close>

theorem update_200_not_json_counterexample:
  "status_code (reply 200 None) = 200 \<and>
   fst (update (\<lambda>rq. Inr (reply 200 None)) demo_data world0) = Inl JSONDecodeError \<and>
   data (fst (snd (update (\<lambda>rq. Inr (reply 200 None)) demo_data world0))) ''a@x.com'' = None \<and>
   current_index (fst (snd (update (\<lambda>rq. Inr (reply 200 None)) demo_data world0))) = 0"
proof -
  have f: "fetched_breaches (reply 200 None) = Inl JSONDecodeError"
    by (simp add: fetched_breaches_def req_json_def reply_def)
  have "fst (update (\<lambda>rq. Inr (reply 200 None)) demo_data world0) = Inl JSONDecodeError \<and>
     fst (snd (update (\<lambda>rq. Inr (reply 200 None)) demo_data world0)) = demo_data"
    using f update_200(1) [of "\<lambda>rq. Inr (reply 200 None)" demo_data "reply 200 None"
        JSONDecodeError world0]
    by (simp add: reply_def)
  then show ?thesis
    by (simp add: demo_data_def reply_def)
qed

text \<open>
  C7, amended. On a response with status 200 whose body decodes to a JSON array of
  objects that each have a string \<^verbatim>\<open>AddedDate\<close>, \<^verbatim>\<open>update\<close> returns normally; the cache
  entry of the email at the cursor becomes the records of the array sorted by
  \<^verbatim>\<open>AddedDate\<close> descending (the same records, records with the same \<^verbatim>\<open>AddedDate\<close> in
  the order of the array), and the cursor has moved to the next email with wrap-around,
  the current email being the one there.
\<close>

theorem update_200_stores_sorted:
  assumes "invariant self"
      and "http (fetch_request self) = Inr req"
      and "status_code req = 200"
      and "body_json req = Some (JArr recs)"
      and "\<forall>v \<in> set recs. \<exists>d. py_getitem v ''AddedDate'' = Inr (JStr d)"
      and "update http self w = (r, self', w')"
  shows "\<exists>bs. r = Inr () \<and>
           data self' = (data self)(emails self ! nat (current_index self) \<mapsto> bs) \<and>
           mset bs = mset recs \<and>
           sorted_wrt (\<lambda>a b. added_date b \<le> added_date a) bs \<and>
           (\<forall>d. filter (\<lambda>v. added_date v = d) bs = filter (\<lambda>v. added_date v = d) recs) \<and>
           current_index self' = (current_index self + 1) mod int (length (emails self)) \<and>
           email self' = emails self ! nat (current_index self')"
proof -
  let ?bs = "rev (sort_key added_date (rev recs))"
  let ?self1 = "self\<lparr>data := (data self)(email self \<mapsto> ?bs)\<rparr>"
  have f: "fetched_breaches req = Inr ?bs"
    using assms(4,5) by (rule fetched_breaches_records)
  from assms(2,3) f update_200(2) [of http self req ?bs w] obtain w1
    where u: "update http self w = set_next_email ?self1 w1" by blast
  have i1: "invariant ?self1"
    using assms(1) by (simp add: invariant_data)
  have k: "email_count self = int (length (emails self))"
    "email self = emails self ! nat (current_index self)"
    using assms(1) by (simp_all add: invariant_def)
  from u assms(6) have s: "set_next_email ?self1 w1 = (r, self', w')" by simp
  have r: "r = Inr ()"
    using set_next_email_keeps_invariant(1) [OF i1, of w1] s by simp
  have d: "data self' = (data self)(emails self ! nat (current_index self) \<mapsto> ?bs)"
    using set_next_email_keeps_invariant(4) [OF i1, of w1] s k by simp
  have c: "current_index self' = (current_index self + 1) mod int (length (emails self))"
    using set_next_email_keeps_invariant(3) [OF i1, of w1] s k by simp
  have "invariant self'"
    using set_next_email_keeps_invariant(2) [OF i1, of w1] s by simp
  then have e: "email self' = emails self ! nat (current_index self')"
    using set_next_email_keeps_invariant(5) [OF i1, of w1] s by (simp add: invariant_def)
  have p: "mset ?bs = mset recs"
    "sorted_wrt (\<lambda>a b. added_date b \<le> added_date a) ?bs"
    "\<forall>d. filter (\<lambda>v. added_date v = d) ?bs = filter (\<lambda>v. added_date v = d) recs"
    by (simp_all add: descending_sort_sorted descending_sort_stable)
  show ?thesis
    using r d c e p by blast
qed

theorem update_200_stores_sorted_witness:
  "invariant demo_data \<and> status_code (reply 200 (Some (JArr demo_breaches))) = 200 \<and>
   fst (update (\<lambda>rq. Inr (reply 200 (Some (JArr demo_breaches)))) demo_data world0) = Inr () \<and>
   data (fst (snd (update (\<lambda>rq. Inr (reply 200 (Some (JArr demo_breaches)))) demo_data world0)))
     ''a@x.com'' =
     Some [JObj [(''Title'', JStr ''B''), (''AddedDate'', JStr ''2021-06-01T12:00:00Z'')],
           JObj [(''Title'', JStr ''A''), (''AddedDate'', JStr ''2020-01-01T00:00:00Z'')],
           JObj [(''Title'', JStr ''C''), (''AddedDate'', JStr ''2020-01-01T00:00:00Z'')]] \<and>
   current_index
     (fst (snd (update (\<lambda>rq. Inr (reply 200 (Some (JArr demo_breaches)))) demo_data world0))) = 1 \<and>
   email (fst (snd (update (\<lambda>rq. Inr (reply 200 (Some (JArr demo_breaches)))) demo_data world0))) =
     ''b@x.com''"
proof -
  let ?req = "reply 200 (Some (JArr demo_breaches))"
  let ?http = "\<lambda>rq :: request. (Inr ?req :: error + response)"
  let ?u = "update ?http demo_data world0"
  have i: "invariant demo_data"
    by (simp add: invariant_def demo_data_def)
  have h: "\<forall>v \<in> set demo_breaches. \<exists>d. py_getitem v ''AddedDate'' = Inr (JStr d)"
    by (simp add: demo_breaches_def)
  have b: "body_json ?req = Some (JArr demo_breaches)" "status_code ?req = 200"
    by (simp_all add: reply_def)
  have u: "?u = (fst ?u, fst (snd ?u), snd (snd ?u))" by simp
  from update_200_stores_sorted
      [of demo_data ?http ?req demo_breaches world0 "fst ?u" "fst (snd ?u)" "snd (snd ?u)"]
    i h b u
  obtain bs where bs: "fst ?u = Inr ()"
    "data (fst (snd ?u)) = (data demo_data)(emails demo_data ! nat (current_index demo_data) \<mapsto> bs)"
    "current_index (fst (snd ?u)) = (current_index demo_data + 1) mod int (length (emails demo_data))"
    "email (fst (snd ?u)) = emails demo_data ! nat (current_index (fst (snd ?u)))"
    by auto
  have f: "fetched_breaches ?req =
     Inr [JObj [(''Title'', JStr ''B''), (''AddedDate'', JStr ''2021-06-01T12:00:00Z'')],
          JObj [(''Title'', JStr ''A''), (''AddedDate'', JStr ''2020-01-01T00:00:00Z'')],
          JObj [(''Title'', JStr ''C''), (''AddedDate'', JStr ''2020-01-01T00:00:00Z'')]]"
    by code_simp
  have u200: "\<exists>w1. ?u = set_next_email (demo_data\<lparr>data := (data demo_data)(email demo_data \<mapsto>
     [JObj [(''Title'', JStr ''B''), (''AddedDate'', JStr ''2021-06-01T12:00:00Z'')],
          JObj [(''Title'', JStr ''A''), (''AddedDate'', JStr ''2020-01-01T00:00:00Z'')],
          JObj [(''Title'', JStr ''C''), (''AddedDate'', JStr ''2020-01-01T00:00:00Z'')]])\<rparr>) w1"
    using f b(2) by (intro update_200(2)) simp_all
  then have v: "data (fst (snd ?u)) ''a@x.com'' =
     Some [JObj [(''Title'', JStr ''B''), (''AddedDate'', JStr ''2021-06-01T12:00:00Z'')],
          JObj [(''Title'', JStr ''A''), (''AddedDate'', JStr ''2020-01-01T00:00:00Z'')],
          JObj [(''Title'', JStr ''C''), (''AddedDate'', JStr ''2020-01-01T00:00:00Z'')]]"
    using i by (auto simp: set_next_email_keeps_invariant(4) invariant_data) (simp add: demo_data_def)
  show ?thesis
    using i b(2) bs(1,3,4) v by (simp add: demo_data_def)
qed

subsection \<open>The two gates\<close>

lemma throttled_update_stamps:
  "executes no_throttle now t \<Longrightarrow>
   last_standard_run (snd (throttled_update http no_throttle now t self w)) = Some now \<and>
   (no_throttle \<longrightarrow>
      last_forced_run (snd (throttled_update http no_throttle now t self w)) = Some now)"
  by (cases no_throttle) (simp_all add: throttled_update_def Throttle_def executes_def)

text \<open>
  C3. The standard gate. When a call of the throttled \<^verbatim>\<open>update\<close> on the standard path
  runs the body at the time \<open>t1\<close>, a second call on the standard path less than the long
  window (15 minutes) after it is a no-op: it returns \<^verbatim>\<open>None\<close> and leaves the fetcher,
  the outside and the throttle as they were. A call more than the long window after
  \<open>t1\<close> runs the body.
\<close>

theorem standard_throttle:
  assumes "executes False t1 th"
      and "throttled_update http1 False t1 th self w = ((r1, self1, w1), th1)"
  shows "(r1, self1, w1) = update http1 self w \<and>
         (t2 - t1 < MIN_TIME_BETWEEN_UPDATES \<longrightarrow>
            throttled_update http2 False t2 th1 self1 w1 = ((Inr (), self1, w1), th1)) \<and>
         (t2 - t1 > MIN_TIME_BETWEEN_UPDATES \<longrightarrow>
            fst (throttled_update http2 False t2 th1 self1 w1) = update http2 self1 w1) \<and>
         MIN_TIME_BETWEEN_UPDATES = 15 * 60 * 1000000"
proof -
  have first: "(r1, self1, w1) = update http1 self w"
    using throttled_update_executes [OF assms(1), of http1 self w] assms(2) by simp
  have stamp: "last_standard_run th1 = Some t1"
    using throttled_update_stamps [OF assms(1), of http1 self w] assms(2) by simp
  have held: "throttled_update http2 False t2 th1 self1 w1 = ((Inr (), self1, w1), th1)"
    if "t2 - t1 < MIN_TIME_BETWEEN_UPDATES"
  proof -
    have "\<not> executes False t2 th1"
      using that stamp by (simp add: executes_def gate_open_def)
    then show ?thesis by (rule throttled_update_suppressed)
  qed
  have runs: "fst (throttled_update http2 False t2 th1 self1 w1) = update http2 self1 w1"
    if "t2 - t1 > MIN_TIME_BETWEEN_UPDATES"
  proof -
    have "executes False t2 th1"
      using that stamp by (simp add: executes_def gate_open_def)
    then show ?thesis by (rule throttled_update_executes)
  qed
  show ?thesis
    using first held runs by (simp add: MIN_TIME_BETWEEN_UPDATES_def)
qed

theorem standard_throttle_witness:
  "(case throttled_update (\<lambda>rq. Inr (reply 404 None)) False 0 never_run demo_data world0 of
      ((r1, self1, w1), th1) \<Rightarrow>
        executes False 0 never_run \<and>
        (r1, self1, w1) = update (\<lambda>rq. Inr (reply 404 None)) demo_data world0 \<and>
        60000000 - 0 < MIN_TIME_BETWEEN_UPDATES \<and>
        throttled_update (\<lambda>rq. Inr (reply 404 None)) False 60000000 th1 self1 w1 =
          ((Inr (), self1, w1), th1) \<and>
        901000000 - 0 > MIN_TIME_BETWEEN_UPDATES \<and>
        fst (throttled_update (\<lambda>rq. Inr (reply 404 None)) False 901000000 th1 self1 w1) =
          update (\<lambda>rq. Inr (reply 404 None)) self1 w1)"
proof -
  let ?http = "\<lambda>rq :: request. (Inr (reply 404 None) :: error + response)"
  obtain r1 self1 w1 th1
    where e: "throttled_update ?http False 0 never_run demo_data world0 = ((r1, self1, w1), th1)"
    by (metis prod.exhaust)
  have g: "executes False 0 never_run"
    by (simp add: executes_def gate_open_def never_run_def)
  have m: "(60000000 :: int) - 0 < MIN_TIME_BETWEEN_UPDATES"
    "(901000000 :: int) - 0 > MIN_TIME_BETWEEN_UPDATES"
    by (simp_all add: MIN_TIME_BETWEEN_UPDATES_def)
  have a: "(r1, self1, w1) = update ?http demo_data world0"
    "throttled_update ?http False 60000000 th1 self1 w1 = ((Inr (), self1, w1), th1)"
    using standard_throttle [OF g e, of 60000000 ?http] m(1) by blast+
  have b: "fst (throttled_update ?http False 901000000 th1 self1 w1) = update ?http self1 w1"
    using standard_throttle [OF g e, of 901000000 ?http] m(2) by blast
  show ?thesis
    unfolding e prod.case using g m a b by blast
qed



subsection \<open>A response with status 404\<close>












subsection \<open>The attributes of a sensor\<close>

lemma digit_value_digit_char: "d < 10 \<Longrightarrow> digit_value (digit_char d) = d"
  by (simp add: digit_value_def digit_char_def)

lemma nat_of_str_snoc: "nat_of_str (s @ [c]) = 10 * nat_of_str s + digit_value c"
  by (simp add: nat_of_str_def)

lemma nat_of_str_of_nat: "nat_of_str (str_of_nat n) = n"
proof (induction n rule: str_of_nat.induct)
  case (1 n)
  show ?case
  proof (cases "n < 10")
    case True
    then show ?thesis
      by (simp add: str_of_nat.simps [of n] nat_of_str_def digit_value_digit_char)
  next
    case False
    then have "nat_of_str (str_of_nat n) = 10 * nat_of_str (str_of_nat (n div 10)) + n mod 10"
      by (simp add: str_of_nat.simps [of n] nat_of_str_snoc digit_value_digit_char)
    also have "\<dots> = 10 * (n div 10) + n mod 10"
      using "1.IH" False by simp
    finally show ?thesis by simp
  qed
qed

lemma str_of_nat_inject: "str_of_nat m = str_of_nat n \<Longrightarrow> m = n"
  by (metis nat_of_str_of_nat)

lemma breach_name_inject:
  "''breach '' @ str_of_nat (i + 1) = ''breach '' @ str_of_nat (j + 1) \<Longrightarrow> i = j"
  using str_of_nat_inject [of "i + 1" "j + 1"] by simp

lemma breach_attributes_records:
  assumes "list_all2 (\<lambda>v td. py_getitem v ''Title'' = Inr (JStr (fst td)) \<and>
             (\<exists>a p. py_getitem v ''AddedDate'' = Inr a \<and> parse_datetime P a = Inr p \<and>
                as_local P p = Inr (snd td))) recs tls"
  shows "\<exists>attrs. breach_attributes P idx recs val = Inr attrs \<and>
           (\<forall>i<length recs. attrs (''breach '' @ str_of_nat (idx + i + 1)) =
              Some (fst (tls ! i) @ '' '' @ strftime P (snd (tls ! i)) DATE_STR_FORMAT)) \<and>
           (\<forall>x. (\<forall>i<length recs. x \<noteq> ''breach '' @ str_of_nat (idx + i + 1)) \<longrightarrow>
              attrs x = val x)"
  using assms
proof (induction recs tls arbitrary: idx val rule: list_all2_induct)
  case Nil
  show ?case by simp
next
  case (Cons v recs td tls)
  let ?name = "''breach '' @ str_of_nat (idx + 1)"
  let ?text = "fst td @ '' '' @ strftime P (snd td) DATE_STR_FORMAT"
  let ?val = "val(?name \<mapsto> ?text)"
  from Cons.hyps(1) obtain a p where v:
    "py_getitem v ''Title'' = Inr (JStr (fst td))" "py_getitem v ''AddedDate'' = Inr a"
    "parse_datetime P a = Inr p" "as_local P p = Inr (snd td)"
    by blast
  have step: "breach_attributes P idx (v # recs) val = breach_attributes P (idx + 1) recs ?val"
    using v by (simp add: Let_def py_format_def)
  from Cons.IH [of "idx + 1" ?val] obtain attrs where r:
    "breach_attributes P (idx + 1) recs ?val = Inr attrs"
    "\<forall>i<length recs. attrs (''breach '' @ str_of_nat (idx + 1 + i + 1)) =
        Some (fst (tls ! i) @ '' '' @ strftime P (snd (tls ! i)) DATE_STR_FORMAT)"
    "\<forall>x. (\<forall>i<length recs. x \<noteq> ''breach '' @ str_of_nat (idx + 1 + i + 1)) \<longrightarrow> attrs x = ?val x"
    by blast
  have first: "attrs ?name = Some ?text"
  proof -
    have "?name \<noteq> ''breach '' @ str_of_nat (idx + 1 + i + 1)" for i
      using breach_name_inject [of idx "idx + 1 + i"] by auto
    with r(3) have "attrs ?name = ?val ?name" by blast
    then show ?thesis by simp
  qed
  have at: "attrs (''breach '' @ str_of_nat (idx + i + 1)) =
      Some (fst ((td # tls) ! i) @ '' '' @ strftime P (snd ((td # tls) ! i)) DATE_STR_FORMAT)"
    if "i < length (v # recs)" for i
  proof (cases i)
    case 0
    with first show ?thesis by simp
  next
    case (Suc j)
    with that have "j < length recs" by simp
    with r(2) have "attrs (''breach '' @ str_of_nat (idx + 1 + j + 1)) =
        Some (fst (tls ! j) @ '' '' @ strftime P (snd (tls ! j)) DATE_STR_FORMAT)"
      by blast
    moreover have "idx + 1 + j + 1 = idx + i + 1"
      using Suc by simp
    moreover have "(td # tls) ! i = tls ! j"
      using Suc by simp
    ultimately show ?thesis
      by metis
  qed
  have frame: "attrs x = val x"
    if "\<forall>i<length (v # recs). x \<noteq> ''breach '' @ str_of_nat (idx + i + 1)" for x
  proof -
    from that have n0: "x \<noteq> ?name" by force
    have "x \<noteq> ''breach '' @ str_of_nat (idx + 1 + i + 1)" if "i < length recs" for i
    proof -
      from that have "Suc i < length (v # recs)" by simp
      with \<open>\<forall>i<length (v # recs). x \<noteq> ''breach '' @ str_of_nat (idx + i + 1)\<close>
      have neq: "x \<noteq> ''breach '' @ str_of_nat (idx + Suc i + 1)" by blast
      have eq: "idx + Suc i + 1 = idx + 1 + i + 1" by simp
      from neq show ?thesis unfolding eq .
    qed
    with r(3) have "attrs x = ?val x" by blast
    with n0 show ?thesis by simp
  qed
  show ?case
    using step r(1) at frame by auto
qed

text \<open>
  C8, as the claim states it, fails: a response with status 200 whose record has an
  \<^verbatim>\<open>AddedDate\<close> and no \<^verbatim>\<open>Title\<close> is sorted and cached, and for that cache entry
  \<^verbatim>\<open>extra_state_attributes\<close> raises \<^verbatim>\<open>KeyError\<close> instead of returning a map.
\<close>

theorem extra_state_attributes_counterexample:
  "(case update
           (\<lambda>rq. Inr (reply 200 (Some (JArr [JObj [(''AddedDate'', JStr ''2021-06-01T12:00:00Z'')]]))))
           demo_data world0 of
      (r, self', w') \<Rightarrow>
        r = Inr () \<and>
        data self' ''a@x.com'' = Some [JObj [(''AddedDate'', JStr ''2021-06-01T12:00:00Z'')]] \<and>
        extra_state_attributes demo_platform (sensor_init ''a@x.com'') self' = Inl KeyError)"
proof -
  let ?j = "JObj [(''AddedDate'', JStr ''2021-06-01T12:00:00Z'')]"
  let ?req = "reply 200 (Some (JArr [?j]))"
  let ?http = "\<lambda>rq :: request. (Inr ?req :: error + response)"
  have i: "invariant demo_data"
    by (simp add: invariant_def demo_data_def)
  have f: "fetched_breaches ?req = Inr [?j]"
    by (simp add: fetched_breaches_def req_json_def reply_def py_sorted_def)
  have "status_code ?req = 200" by (simp add: reply_def)
  with f update_200(2) [of ?http demo_data ?req "[?j]" world0] obtain w1 where
    u: "update ?http demo_data world0 =
          set_next_email (demo_data\<lparr>data := (data demo_data)(email demo_data \<mapsto> [?j])\<rparr>) w1"
    by auto
  obtain r self' w' where e: "update ?http demo_data world0 = (r, self', w')"
    by (metis prod.exhaust)
  let ?self1 = "demo_data\<lparr>data := (data demo_data)(email demo_data \<mapsto> [?j])\<rparr>"
  have i1: "invariant ?self1"
    using i by (simp add: invariant_data)
  from u e have sn: "set_next_email ?self1 w1 = (r, self', w')"
    by simp
  have r: "r = Inr ()"
    using set_next_email_keeps_invariant(1) [OF i1, of w1] by (simp add: sn)
  have d: "data self' = (data demo_data)(email demo_data \<mapsto> [?j])"
    using set_next_email_keeps_invariant(4) [OF i1, of w1] by (simp add: sn)
  then have d1: "data self' ''a@x.com'' = Some [?j]"
    by (simp add: demo_data_def)
  have p: "parse_datetime_utc (JStr ''2021-06-01T12:00:00Z'') =
      Inr (Some \<lparr>year = 2021, month = 6, day = 1, hour = 12, minute = 0, second = 0\<rparr>)"
    by code_simp
  have x: "extra_state_attributes demo_platform (sensor_init ''a@x.com'') self' = Inl KeyError"
    using d1 p
    apply (simp add: extra_state_attributes_def sensor_init_def)
    apply (simp add: demo_platform_def as_local_utc_def)
    done
  show ?thesis
    unfolding e prod.case using r d1 x by blast
qed

text \<open>
  C8, amended. When the cache lacks the sensor's email, the attributes are the
  attribution alone. When the cache has an entry for it whose records each have a
  string \<^verbatim>\<open>Title\<close> and an \<^verbatim>\<open>AddedDate\<close> that \<^verbatim>\<open>parse_datetime\<close> and \<^verbatim>\<open>as_local\<close> accept,
  the attributes are the attribution and, for the record at position \<open>i\<close> (from 0), the
  attribute \<^verbatim>\<open>breach i+1\<close> whose value is the Title, a space and the local date-time
  printed with the format \<^verbatim>\<open>%Y-%m-%d %H:%M:%S\<close>; there is no other attribute. The key of
  the attribution is a constant of the platform that is no \<^verbatim>\<open>breach\<close> name.
\<close>

theorem extra_state_attributes_breaches:
  assumes "take 7 (ATTR_ATTRIBUTION P) \<noteq> ''breach ''"
  shows
   "(data self (sensor_email s) = None \<longrightarrow>
       extra_state_attributes P s self = Inr [ATTR_ATTRIBUTION P \<mapsto> ATTRIBUTION]) \<and>
    (\<forall>recs tls.
       data self (sensor_email s) = Some recs \<and> length tls = length recs \<and>
       (\<forall>i<length recs.
          py_getitem (recs ! i) ''Title'' = Inr (JStr (fst (tls ! i))) \<and>
          (\<exists>a p. py_getitem (recs ! i) ''AddedDate'' = Inr a \<and> parse_datetime P a = Inr p \<and>
             as_local P p = Inr (snd (tls ! i)))) \<longrightarrow>
       (\<exists>attrs.
          extra_state_attributes P s self = Inr attrs \<and>
          attrs (ATTR_ATTRIBUTION P) = Some ATTRIBUTION \<and>
          (\<forall>i<length recs.
             attrs (''breach '' @ str_of_nat (i + 1)) =
               Some (fst (tls ! i) @ '' '' @ strftime P (snd (tls ! i)) ''%Y-%m-%d %H:%M:%S'')) \<and>
          dom attrs =
            insert (ATTR_ATTRIBUTION P) {''breach '' @ str_of_nat (i + 1) | i. i < length recs}))"
proof -
  have none: "extra_state_attributes P s self = Inr [ATTR_ATTRIBUTION P \<mapsto> ATTRIBUTION]"
    if "data self (sensor_email s) = None"
    using that by (simp add: extra_state_attributes_def)
  have some: "\<exists>attrs.
          extra_state_attributes P s self = Inr attrs \<and>
          attrs (ATTR_ATTRIBUTION P) = Some ATTRIBUTION \<and>
          (\<forall>i<length recs.
             attrs (''breach '' @ str_of_nat (i + 1)) =
               Some (fst (tls ! i) @ '' '' @ strftime P (snd (tls ! i)) ''%Y-%m-%d %H:%M:%S'')) \<and>
          dom attrs =
            insert (ATTR_ATTRIBUTION P) {''breach '' @ str_of_nat (i + 1) | i. i < length recs}"
    if d: "data self (sensor_email s) = Some recs" and l: "length tls = length recs"
      and h: "\<forall>i<length recs.
          py_getitem (recs ! i) ''Title'' = Inr (JStr (fst (tls ! i))) \<and>
          (\<exists>a p. py_getitem (recs ! i) ''AddedDate'' = Inr a \<and> parse_datetime P a = Inr p \<and>
             as_local P p = Inr (snd (tls ! i)))"
    for recs tls
  proof -
    let ?val = "[ATTR_ATTRIBUTION P \<mapsto> ATTRIBUTION]"
    have "list_all2 (\<lambda>v td. py_getitem v ''Title'' = Inr (JStr (fst td)) \<and>
             (\<exists>a p. py_getitem v ''AddedDate'' = Inr a \<and> parse_datetime P a = Inr p \<and>
                as_local P p = Inr (snd td))) recs tls"
      using l h by (simp add: list_all2_conv_all_nth)
    from breach_attributes_records [OF this, of 0 ?val] obtain attrs where a:
      "breach_attributes P 0 recs ?val = Inr attrs"
      "\<forall>i<length recs. attrs (''breach '' @ str_of_nat (0 + i + 1)) =
              Some (fst (tls ! i) @ '' '' @ strftime P (snd (tls ! i)) DATE_STR_FORMAT)"
      "\<forall>x. (\<forall>i<length recs. x \<noteq> ''breach '' @ str_of_nat (0 + i + 1)) \<longrightarrow> attrs x = ?val x"
      by blast
    have e: "extra_state_attributes P s self = Inr attrs"
      using d a(1) by (simp add: extra_state_attributes_def)
    have b: "\<forall>i<length recs. attrs (''breach '' @ str_of_nat (i + 1)) =
        Some (fst (tls ! i) @ '' '' @ strftime P (snd (tls ! i)) ''%Y-%m-%d %H:%M:%S'')"
      using a(2) by (simp add: DATE_STR_FORMAT_def)
    have nb: "ATTR_ATTRIBUTION P \<noteq> ''breach '' @ str_of_nat (0 + i + 1)" for i
      using assms by auto
    with a(3) have k: "attrs (ATTR_ATTRIBUTION P) = Some ATTRIBUTION"
      by simp
    have dm: "dom attrs =
        insert (ATTR_ATTRIBUTION P) {''breach '' @ str_of_nat (i + 1) | i. i < length recs}"
    proof (rule set_eqI)
      fix x
      show "x \<in> dom attrs \<longleftrightarrow>
        x \<in> insert (ATTR_ATTRIBUTION P) {''breach '' @ str_of_nat (i + 1) | i. i < length recs}"
      proof (cases "\<exists>i<length recs. x = ''breach '' @ str_of_nat (i + 1)")
        case True
        with b show ?thesis by auto
      next
        case False
        then have "attrs x = ?val x"
          using a(3) by simp
        with False show ?thesis
          by (auto split: if_splits)
      qed
    qed
    show ?thesis
      using e k b dm by blast
  qed
  show ?thesis
    using none some by blast
qed

theorem extra_state_attributes_breaches_witness:
  "take 7 (ATTR_ATTRIBUTION demo_platform) \<noteq> ''breach '' \<and>
   (\<exists>attrs.
      extra_state_attributes demo_platform (sensor_init ''a@x.com'')
        (demo_data\<lparr>data := [''a@x.com'' \<mapsto> [acme]]\<rparr>) = Inr attrs \<and>
      attrs ''attribution'' = Some ''Data provided by Have I Been Pwned (HIBP)'' \<and>
      attrs ''breach 1'' = Some ''Acme 2021-06-01 12:00:00'' \<and>
      dom attrs = {''attribution'', ''breach 1''}) \<and>
   extra_state_attributes demo_platform (sensor_init ''b@x.com'')
     (demo_data\<lparr>data := [''a@x.com'' \<mapsto> [acme]]\<rparr>) =
     Inr [''attribution'' \<mapsto> ''Data provided by Have I Been Pwned (HIBP)'']"
proof -
  let ?self = "demo_data\<lparr>data := [''a@x.com'' \<mapsto> [acme]]\<rparr>"
  let ?t = "\<lparr>year = 2021, month = 6, day = 1, hour = 12, minute = 0, second = 0\<rparr>"
  have k: "take 7 (ATTR_ATTRIBUTION demo_platform) \<noteq> ''breach ''"
    "ATTR_ATTRIBUTION demo_platform = ''attribution''"
    by (simp_all add: demo_platform_def)
  have p: "parse_datetime demo_platform (JStr ''2021-06-01T12:00:00Z'') = Inr (Some ?t)"
    by code_simp
  have f: "strftime demo_platform ?t ''%Y-%m-%d %H:%M:%S'' = ''2021-06-01 12:00:00''"
    by code_simp
  have n: "str_of_nat 1 = ''1''"
    by code_simp
  have l: "as_local demo_platform (Some ?t) = Inr ?t"
    by (simp add: demo_platform_def as_local_utc_def)
  have h: "\<forall>i<length [acme].
          py_getitem ([acme] ! i) ''Title'' = Inr (JStr (fst ([(''Acme'', ?t)] ! i))) \<and>
          (\<exists>a p. py_getitem ([acme] ! i) ''AddedDate'' = Inr a \<and>
             parse_datetime demo_platform a = Inr p \<and>
             as_local demo_platform p = Inr (snd ([(''Acme'', ?t)] ! i)))"
    using p l by (simp add: acme_def)
  have a: "data ?self (sensor_email (sensor_init ''a@x.com'')) = Some [acme]"
    "data ?self (sensor_email (sensor_init ''b@x.com'')) = None"
    by (simp_all add: sensor_init_def)
  note th = extra_state_attributes_breaches [OF k(1), of ?self "sensor_init ''a@x.com''",
      THEN conjunct2, rule_format, of "[acme]" "[(''Acme'', ?t)]"]
  have "\<exists>attrs.
      extra_state_attributes demo_platform (sensor_init ''a@x.com'') ?self = Inr attrs \<and>
      attrs (ATTR_ATTRIBUTION demo_platform) = Some ATTRIBUTION \<and>
      (\<forall>i<length [acme]. attrs (''breach '' @ str_of_nat (i + 1)) =
        Some (fst ([(''Acme'', ?t)] ! i) @ '' '' @
              strftime demo_platform (snd ([(''Acme'', ?t)] ! i)) ''%Y-%m-%d %H:%M:%S'')) \<and>
      dom attrs = insert (ATTR_ATTRIBUTION demo_platform)
        {''breach '' @ str_of_nat (i + 1) | i. i < length [acme]}"
  proof (rule th, intro conjI)
    show "data ?self (sensor_email (sensor_init ''a@x.com'')) = Some [acme]"
      by (rule a(1))
    show "length [(''Acme'', ?t)] = length [acme]"
      by simp
    show "\<forall>i<length [acme].
          py_getitem ([acme] ! i) ''Title'' = Inr (JStr (fst ([(''Acme'', ?t)] ! i))) \<and>
          (\<exists>a p. py_getitem ([acme] ! i) ''AddedDate'' = Inr a \<and>
             parse_datetime demo_platform a = Inr p \<and>
             as_local demo_platform p = Inr (snd ([(''Acme'', ?t)] ! i)))"
      by (rule h)
  qed
  then obtain attrs where r:
    "extra_state_attributes demo_platform (sensor_init ''a@x.com'') ?self = Inr attrs"
    "attrs (ATTR_ATTRIBUTION demo_platform) = Some ATTRIBUTION"
    "\<forall>i<length [acme]. attrs (''breach '' @ str_of_nat (i + 1)) =
        Some (fst ([(''Acme'', ?t)] ! i) @ '' '' @
              strftime demo_platform (snd ([(''Acme'', ?t)] ! i)) ''%Y-%m-%d %H:%M:%S'')"
    "dom attrs = insert (ATTR_ATTRIBUTION demo_platform)
        {''breach '' @ str_of_nat (i + 1) | i. i < length [acme]}"
    by blast
  have "attrs (''breach '' @ str_of_nat (0 + 1)) =
      Some (fst ([(''Acme'', ?t)] ! 0) @ '' '' @
            strftime demo_platform (snd ([(''Acme'', ?t)] ! 0)) ''%Y-%m-%d %H:%M:%S'')"
    using r(3) by blast
  then have b1: "attrs ''breach 1'' = Some ''Acme 2021-06-01 12:00:00''"
    by (simp only: add_0 nth_Cons_0 fst_conv snd_conv n f append_Cons append_Nil)
  have "{''breach '' @ str_of_nat (i + 1) | i. i < length [acme]} = {''breach '' @ str_of_nat (0 + 1)}"
    by auto
  then have d: "dom attrs = {''attribution'', ''breach 1''}"
    by (simp only: r(4) add_0 n k(2) append_Cons append_Nil)
  have r2: "attrs ''attribution'' = Some ''Data provided by Have I Been Pwned (HIBP)''"
    using r(2) by (simp add: k(2) ATTRIBUTION_def)
  have c: "extra_state_attributes demo_platform (sensor_init ''b@x.com'') ?self =
      Inr [''attribution'' \<mapsto> ''Data provided by Have I Been Pwned (HIBP)'']"
    using extra_state_attributes_breaches [OF k(1), of ?self "sensor_init ''b@x.com''"] a(2)
    by (simp add: k(2) ATTRIBUTION_def)
  from r(1) r2 b1 d have "\<exists>attrs.
      extra_state_attributes demo_platform (sensor_init ''a@x.com'') ?self = Inr attrs \<and>
      attrs ''attribution'' = Some ''Data provided by Have I Been Pwned (HIBP)'' \<and>
      attrs ''breach 1'' = Some ''Acme 2021-06-01 12:00:00'' \<and>
      dom attrs = {''attribution'', ''breach 1''}"
    by blast
  with k(1) c show ?thesis
    by blast
qed

subsection \<open>Transport errors\<close>

text \<open>
  C1. When \<^verbatim>\<open>requests.get\<close> raises a \<^verbatim>\<open>RequestException\<close>, the handler logs the error
  and then reads \<^verbatim>\<open>req.text\<close>; \<^verbatim>\<open>req\<close> was never assigned, so the read raises
  \<^verbatim>\<open>UnboundLocalError\<close> and \<^verbatim>\<open>update\<close> does not return normally. The fetcher (cache and
  cursor) is as it was, and the last record logged is the error.
\<close>

theorem update_transport_error_raises:
  "fst (update (\<lambda>rq. Inl RequestException) self w) = Inl UnboundLocalError \<and>
   fst (snd (update (\<lambda>rq. Inl RequestException) self w)) = self \<and>
   log_level (last (logged (snd (snd (update (\<lambda>rq. Inl RequestException) self w))))) = ERROR"
  by (simp add: update_transport)

subsection \<open>A status other than 200 and 404\<close>

text \<open>
  C6. When the response has a status that is neither 200 nor 404, \<^verbatim>\<open>update\<close> returns
  normally and leaves the fetcher as it was: the whole cache and the cursor are
  unchanged, and the last record logged is an error.
\<close>

theorem update_other_status_frame:
  assumes "http (fetch_request self) = Inr req"
      and "status_code req \<noteq> 200" and "status_code req \<noteq> 404"
      and "update http self w = (r, self', w')"
  shows "r = Inr () \<and> self' = self \<and> data self' = data self \<and>
         current_index self' = current_index self \<and>
         log_level (last (logged w')) = ERROR"
  using update_other [of http self req w] assms by simp

theorem update_other_status_frame_witness:
  "status_code (reply 429 None) \<noteq> 200 \<and> status_code (reply 429 None) \<noteq> 404 \<and>
   fst (update (\<lambda>rq. Inr (reply 429 None)) demo_data world0) = Inr () \<and>
   fst (snd (update (\<lambda>rq. Inr (reply 429 None)) demo_data world0)) = demo_data \<and>
   data (fst (snd (update (\<lambda>rq. Inr (reply 429 None)) demo_data world0))) ''a@x.com'' = None \<and>
   current_index (fst (snd (update (\<lambda>rq. Inr (reply 429 None)) demo_data world0))) = 0"
proof -
  let ?http = "\<lambda>rq :: request. (Inr (reply 429 None) :: error + response)"
  let ?u = "update ?http demo_data world0"
  have h: "status_code (reply 429 None) \<noteq> 200" "status_code (reply 429 None) \<noteq> 404"
    "?u = (fst ?u, fst (snd ?u), snd (snd ?u))"
    by (simp_all add: reply_def)
  show ?thesis
    using h update_other_status_frame
      [of ?http demo_data "reply 429 None" world0 "fst ?u" "fst (snd ?u)" "snd (snd ?u)"]
    by (simp add: demo_data_def)
qed

subsection \<open>The request\<close>

text \<open>
  C9. Every run of the body of \<^verbatim>\<open>update\<close> sends exactly one request: a GET to the base
  URL followed by the current email, with the parameter \<^verbatim>\<open>truncateResponse=false\<close>, a
  timeout of 5 seconds and redirects allowed. The headers it passes are named
  \<^verbatim>\<open>USER_AGENT\<close> and \<^verbatim>\<open>hibp-api-key\<close>: the second carries the configured key, the first
  the user-agent string of the component under a quoted name, so that no header
  \<^verbatim>\<open>User-Agent\<close> is among them.
\<close>

theorem update_sends_one_get:
  "sent (snd (snd (update http self w))) =
     sent w @
     [\<lparr>http_method = GET,
       url = ''https://haveibeenpwned.com/api/v3/breachedaccount/'' @ email self,
       params = [(''truncateResponse'', ''false'')],
       headers = [(''USER_AGENT'', ''Home Assistant HaveIBeenPwned Sensor Component''),
                  (''hibp-api-key'', api_key self)],
       allow_redirects = True, timeout = 5\<rparr>] \<and>
   map fst (headers (last (sent (snd (snd (update http self w)))))) =
     [''USER_AGENT'', ''hibp-api-key''] \<and>
   ''User-Agent'' \<notin> set (map fst (headers (last (sent (snd (snd (update http self w)))))))"
  by (simp add: update_sent fetch_request_def requests_get_def URL_def HA_USER_AGENT_def)

end
